theory Spec2Isabelle
  imports Complex_Main "HOL-Library.Multiset"
begin

section \<open>Speaker-encoder training driver: model of the source\<close>

text \<open>
  The development embeds \<^verbatim>\<open>TTS/bin/train_encoder.py\<close> (functions \<^verbatim>\<open>train\<close> and
  \<^verbatim>\<open>main\<close>) and \<^verbatim>\<open>TTS/encoder/configs/base_encoder_config.py\<close>
  (class \<^verbatim>\<open>BaseEncoderConfig\<close>).

  Conventions: Python integers are \<open>int\<close>; Python floats are abstracted to \<open>real\<close>
  (the statements below are about which expression the code evaluates, not about
  rounding); \<^verbatim>\<open>float("inf")\<close> is \<open>None\<close> in a \<open>real option\<close>; every exception the
  modelled lines can raise is a value of type \<open>error\<close>, returned as \<open>Inl\<close>.
  The neural network, the criterion, the optimizer step, the dashboard and the clock are
  external collaborators: what the loop reads back from them (the scalar loss, the
  loader latency, the step time) is part of the input of each iteration.
\<close>

subsection \<open>Exceptions\<close>

datatype error =
    RuntimeError
  | ZeroDivisionError
  | KeyError
  | AssertionError
  | ConfigurationError

subsection \<open>Batch regrouping (\<^verbatim>\<open>train\<close>, lines 84-85)\<close>

text \<open>
  \<^verbatim>\<open>labels = torch.transpose(labels.view(U, C), 0, 1).reshape(labels.shape)\<close> and the same
  for \<^verbatim>\<open>inputs\<close> with a trailing \<^verbatim>\<open>-1\<close> axis. A batch is a list of rows (one per
  utterance); the trailing feature axes of a row are not touched by the transform, so a
  row is an element of an arbitrary type.

  \<open>view2 r c\<close> is the row-major \<open>r \<times> c\<close> view of a flat sequence, \<open>transpose01\<close>
  swaps the two axes and \<open>concat\<close> is the row-major flattening done by \<^verbatim>\<open>reshape\<close>.
  \<^verbatim>\<open>view\<close> raises \<^verbatim>\<open>RuntimeError\<close> unless the requested shape has exactly the elements of
  the tensor; with a non-positive \<open>U\<close> or \<open>C\<close> the call on \<^verbatim>\<open>inputs\<close> (which already
  carries one inferred axis) raises as well.
\<close>

definition view2 :: "nat \<Rightarrow> nat \<Rightarrow> 'a list \<Rightarrow> 'a list list" where
  "view2 r c xs = map (\<lambda>i. map (\<lambda>j. xs ! (i * c + j)) [0..<c]) [0..<r]"

definition transpose01 :: "nat \<Rightarrow> nat \<Rightarrow> 'a list list \<Rightarrow> 'a list list" where
  "transpose01 r c g = map (\<lambda>j. map (\<lambda>i. g ! i ! j) [0..<r]) [0..<c]"

definition regroup :: "int \<Rightarrow> int \<Rightarrow> 'a list \<Rightarrow> error + 'a list" where
  "regroup u c xs =
     (if 0 < u \<and> 0 < c \<and> int (length xs) = u * c
      then Inr (concat (transpose01 (nat u) (nat c) (view2 (nat u) (nat c) xs)))
      else Inl RuntimeError)"

text \<open>The position in the input of the element that lands at output position \<open>k\<close>.\<close>

definition regroup_index :: "nat \<Rightarrow> nat \<Rightarrow> nat \<Rightarrow> nat" where
  "regroup_index r c k = (k mod r) * c + k div r"

subsection \<open>Configuration values read by the training driver\<close>

text \<open>
  The global \<^verbatim>\<open>c\<close> of \<^verbatim>\<open>train_encoder.py\<close>: the fields of \<^verbatim>\<open>BaseEncoderConfig\<close> that
  \<^verbatim>\<open>train\<close>, \<^verbatim>\<open>main\<close> and \<^verbatim>\<open>check_values\<close> read. \<^verbatim>\<open>model_params\<close> is a Python dict
  with values of several types, \<^verbatim>\<open>audio\<close> is a \<^verbatim>\<open>BaseAudioConfig\<close>.
\<close>

datatype pyval = PNone | PInt int | PFloat real | PStr string | PBool bool | PObj string

record audio_config =
  num_mels :: int

record config =
  model_params :: "(string \<times> pyval) list"
  audio :: audio_config
  max_train_step :: int
  lr :: real
  steps_plot_stats :: int
  save_step :: int
  print_step :: int
  num_classes_in_batch :: int
  num_utter_per_class :: int
  num_loader_workers :: int

text \<open>Python's \<^verbatim>\<open>a % b\<close> on integers: floored, and \<^verbatim>\<open>ZeroDivisionError\<close> for \<open>b = 0\<close>.\<close>

definition py_mod :: "int \<Rightarrow> int \<Rightarrow> error + int" where
  "py_mod a b = (if b = 0 then Inl ZeroDivisionError else Inr (a mod b))"

subsection \<open>The training loop (\<^verbatim>\<open>train\<close>, lines 69-171)\<close>

text \<open>
  One element of the data loader: the features and the labels, with one row per
  utterance of the batch in each, together with what the iteration reads back from its
  collaborators: \<open>loss_item\<close> is the value of \<^verbatim>\<open>loss.item()\<close>, \<open>loader_time\<close> the value
  of \<^verbatim>\<open>time.time() - end_time\<close> (line 102) and \<open>step_time\<close> the value of
  \<^verbatim>\<open>time.time() - start_time\<close> (line 124).
\<close>

record ('a, 'b) batch =
  inputs :: "'a list"
  labels :: "'b list"
  loss_item :: real
  loader_time :: real
  step_time :: real

text \<open>
  The local variables of \<^verbatim>\<open>train\<close>. \<open>checkpoints\<close> is the effect of
  \<^verbatim>\<open>save_best_model\<close> on the output directory: the (step, loss) pairs of the checkpoints
  written, newest first. \<open>processed\<close> counts the batches whose optimizer step was taken.
\<close>

record train_state =
  global_step :: int
  epoch_time :: real
  best_loss :: "real option"
  avg_loss :: real
  avg_loss_all :: real
  avg_loader_time :: real
  checkpoints :: "(int \<times> real) list"
  processed :: nat

definition init_state :: "int \<Rightarrow> train_state" where
  "init_state g =
     \<lparr>global_step = g, epoch_time = 0, best_loss = None, avg_loss = 0, avg_loss_all = 0,
      avg_loader_time = 0, checkpoints = [], processed = 0\<rparr>"

text \<open>
  Modelled from the spec: the test made by \<^verbatim>\<open>save_best_model\<close> (see below), in the
  words of the specification "the current smoothed loss is the best (lowest) seen so
  far". The watermark starts at \<^verbatim>\<open>float("inf")\<close>, here \<open>None\<close>.
\<close>

definition is_best :: "real \<Rightarrow> real option \<Rightarrow> bool" where
  "is_best model_loss best = (case best of None \<Rightarrow> True | Some b \<Rightarrow> model_loss < b)"

text \<open>
  Modelled from the spec: \<^verbatim>\<open>save_best_model\<close> of \<^verbatim>\<open>TTS/encoder/utils/generic_utils.py\<close>
  is not among the sources. The specification says of it: persist a checkpoint if the
  current smoothed loss is the best seen so far, and update the best-loss watermark.
  It returns the new watermark; the written checkpoint is recorded with its step and
  loss.
\<close>

definition save_best_model ::
  "real \<Rightarrow> real option \<Rightarrow> int \<Rightarrow> (int \<times> real) list \<Rightarrow> real option \<times> (int \<times> real) list" where
  "save_best_model model_loss best current_step out =
     (if is_best model_loss best
      then (Some model_loss, (current_step, model_loss) # out)
      else (best, out))"

text \<open>Lines 164-165: the body of the save branch.\<close>

definition save_block :: "train_state \<Rightarrow> train_state" where
  "save_block s =
     (case save_best_model (avg_loss s) (best_loss s) (global_step s) (checkpoints s) of
        (b, out) \<Rightarrow> s\<lparr>best_loss := b, checkpoints := out, avg_loss_all := 0\<rparr>)"

text \<open>
  One iteration of the \<^verbatim>\<open>for\<close> loop (lines 79-169). The result is the new state and
  whether \<^verbatim>\<open>break\<close> was executed. The regrouped batch is consumed by the model and the
  criterion; \<^verbatim>\<open>or\<close> on line 162 does not evaluate \<^verbatim>\<open>global_step % c.save_step\<close> when its
  first operand holds.
\<close>

definition train_step ::
  "config \<Rightarrow> ('a, 'b) batch \<Rightarrow> train_state \<Rightarrow> error + (train_state \<times> bool)" where
  "train_step c d s =
     (case regroup (num_utter_per_class c) (num_classes_in_batch c) (labels d) of
        Inl e \<Rightarrow> Inl e
      | Inr labels' \<Rightarrow>
     (case regroup (num_utter_per_class c) (num_classes_in_batch c) (inputs d) of
        Inl e \<Rightarrow> Inl e
      | Inr inputs' \<Rightarrow>
     (let step = global_step s + 1;
          avg = (if avg_loss s \<noteq> 0 then 0.01 * loss_item d + 0.99 * avg_loss s
                 else loss_item d);
          nlw = (if num_loader_workers c > 0 then num_loader_workers c else 1);
          alt = (if avg_loader_time s \<noteq> 0
                 then 1 / real_of_int nlw * loader_time d
                      + real_of_int (nlw - 1) / real_of_int nlw * avg_loader_time s
                 else loader_time d);
          s1 = s\<lparr>global_step := step, epoch_time := epoch_time s + step_time d,
                 avg_loss := avg, avg_loader_time := alt,
                 processed := Suc (processed s)\<rparr>
      in case py_mod step (steps_plot_stats c) of
           Inl e \<Rightarrow> Inl e
         | Inr _ \<Rightarrow>
        (case py_mod step (print_step c) of
           Inl e \<Rightarrow> Inl e
         | Inr _ \<Rightarrow>
        (let s2 = s1\<lparr>avg_loss_all := avg_loss_all s1 + avg\<rparr>
         in if step \<ge> max_train_step c then Inr (save_block s2, True)
            else (case py_mod step (save_step c) of
                    Inl e \<Rightarrow> Inl e
                  | Inr m \<Rightarrow>
                      if m = 0 then Inr (save_block s2, False) else Inr (s2, False)))))))"

text \<open>The \<^verbatim>\<open>for\<close> loop over the (finite) data loader: one pass, left early by \<^verbatim>\<open>break\<close>.\<close>

fun train_loop ::
  "config \<Rightarrow> ('a, 'b) batch list \<Rightarrow> train_state \<Rightarrow> error + train_state" where
  "train_loop c [] s = Inr s"
| "train_loop c (d # ds) s =
     (case train_step c d s of
        Inl e \<Rightarrow> Inl e
      | Inr (s', brk) \<Rightarrow> if brk then Inr s' else train_loop c ds s')"

definition train :: "config \<Rightarrow> ('a, 'b) batch list \<Rightarrow> int \<Rightarrow> error + (real \<times> int)" where
  "train c data_loader g =
     (case train_loop c data_loader (init_state g) of
        Inl e \<Rightarrow> Inl e
      | Inr s \<Rightarrow> Inr (avg_loss s, global_step s))"

text \<open>
  The conditions under which an iteration raises nothing: the batch has exactly
  \<open>num_utter_per_class * num_classes_in_batch\<close> rows and labels, and the three cadence
  divisors are not zero.
\<close>

definition batch_ok :: "config \<Rightarrow> ('a, 'b) batch \<Rightarrow> bool" where
  "batch_ok c d \<longleftrightarrow>
     0 < num_utter_per_class c \<and> 0 < num_classes_in_batch c
     \<and> int (length (labels d)) = num_utter_per_class c * num_classes_in_batch c
     \<and> int (length (inputs d)) = num_utter_per_class c * num_classes_in_batch c"

definition cadence_ok :: "config \<Rightarrow> bool" where
  "cadence_ok c \<longleftrightarrow> steps_plot_stats c \<noteq> 0 \<and> print_step c \<noteq> 0 \<and> save_step c \<noteq> 0"

text \<open>
  The smoothed loss as the specification words it: the first loss seeds the average,
  every later loss enters with weight 0.01. The argument lists the losses newest first.
\<close>

fun ema_spec :: "real list \<Rightarrow> real" where
  "ema_spec [] = 0"
| "ema_spec [l] = l"
| "ema_spec (l # ls) = 0.01 * l + 0.99 * ema_spec ls"

text \<open>
  The smoothed loader latency as the specification words it: the first observation seeds
  the average, every later one enters with weight \<open>1 / num_workers\<close>, zero workers
  counting as one. The list holds the observations newest first.
\<close>

fun loader_ema_spec :: "int \<Rightarrow> real list \<Rightarrow> real" where
  "loader_ema_spec w [] = 0"
| "loader_ema_spec w [t] = t"
| "loader_ema_spec w (t # ts) =
     1 / real_of_int (max 1 w) * t
     + (real_of_int (max 1 w) - 1) / real_of_int (max 1 w) * loader_ema_spec w ts"

subsection \<open>Configuration schema (\<^verbatim>\<open>BaseEncoderConfig\<close>)\<close>

text \<open>
  Python's \<^verbatim>\<open>==\<close> on the values a configuration holds: numbers (and booleans, which
  are integers) compare by value across types, everything else by identity of the value.
\<close>

fun num_of :: "pyval \<Rightarrow> real option" where
  "num_of (PInt i) = Some (real_of_int i)"
| "num_of (PFloat r) = Some r"
| "num_of (PBool b) = Some (if b then 1 else 0)"
| "num_of v = None"

definition py_eq :: "pyval \<Rightarrow> pyval \<Rightarrow> bool" where
  "py_eq a b =
     (case (num_of a, num_of b) of
        (Some x, Some y) \<Rightarrow> x = y
      | (None, None) \<Rightarrow> a = b
      | _ \<Rightarrow> False)"

text \<open>
  \<^verbatim>\<open>BaseEncoderConfig.check_values\<close> (lines 53-58). The check of the base class
  \<^verbatim>\<open>BaseTrainingConfig\<close> is not among the sources and is a parameter. The method reads
  the configuration and returns; it has no other effect. A failing \<^verbatim>\<open>assert\<close> raises
  \<^verbatim>\<open>AssertionError\<close>, a dict without the key raises \<^verbatim>\<open>KeyError\<close>.
\<close>

definition check_values :: "(config \<Rightarrow> error + unit) \<Rightarrow> config \<Rightarrow> error + unit" where
  "check_values super_check_values self =
     (case super_check_values self of
        Inl e \<Rightarrow> Inl e
      | Inr _ \<Rightarrow>
          (case map_of (model_params self) ''input_dim'' of
             None \<Rightarrow> Inl KeyError
           | Some v \<Rightarrow>
               if py_eq v (PInt (num_mels (audio self))) then Inr () else Inl AssertionError))"

text \<open>
  The fields the class declares (lines 13-51) with their defaults, in the order of the
  source. \<^verbatim>\<open>MISSING\<close> is the marker of the configuration library for a field without a
  default; a default built by a \<^verbatim>\<open>default_factory\<close> is recorded by its source text.
\<close>

datatype field_default = MISSING | Default pyval

definition BaseEncoderConfig_fields :: "(string \<times> field_default) list" where
  "BaseEncoderConfig_fields =
     [(''model'', Default PNone),
      (''audio'', Default (PObj ''BaseAudioConfig()'')),
      (''datasets'', Default (PObj ''[BaseDatasetConfig()]'')),
      (''model_params'', Default (PObj ''{model_name: lstm, input_dim: 80, proj_dim: 256, lstm_dim: 768, num_lstm_layers: 3, use_lstm_with_projection: True}'')),
      (''audio_augmentation'', Default (PObj ''{}'')),
      (''max_train_step'', Default (PInt 1000000)),
      (''loss'', Default (PStr ''angleproto'')),
      (''grad_clip'', Default (PFloat 3)),
      (''lr'', Default (PFloat (1 / 10000))),
      (''lr_decay'', Default (PBool False)),
      (''warmup_steps'', Default (PInt 4000)),
      (''wd'', Default (PFloat (1 / 1000000))),
      (''tb_model_param_stats'', Default (PBool False)),
      (''steps_plot_stats'', Default (PInt 10)),
      (''checkpoint'', Default (PBool True)),
      (''save_step'', Default (PInt 1000)),
      (''print_step'', Default (PInt 20)),
      (''num_classes_in_batch'', MISSING),
      (''num_utter_per_class'', MISSING),
      (''num_loader_workers'', MISSING),
      (''skip_classes'', Default (PBool False)),
      (''voice_len'', Default (PFloat (16 / 10)))]"

text \<open>
  Modelled from the spec: the instantiation of the schema is done by the configuration
  base classes, which are not among the sources. The specification says of it: the
  batch-composition fields are mandatory (no default), i.e. absence is a configuration
  error, not a silent default. A field takes the value given for it, else its default,
  and a field that has neither is a \<open>ConfigurationError\<close>.
\<close>

definition field_value :: "(string \<times> pyval) list \<Rightarrow> string \<Rightarrow> field_default \<Rightarrow> error + pyval" where
  "field_value given name dflt =
     (case map_of given name of
        Some v \<Rightarrow> Inr v
      | None \<Rightarrow> (case dflt of MISSING \<Rightarrow> Inl ConfigurationError | Default v \<Rightarrow> Inr v))"

text \<open>
  Modelled from the spec: the instantiation of a whole schema, field by field in the
  order of declaration; the first field without a value makes it fail.
\<close>

fun resolve_fields ::
  "(string \<times> field_default) list \<Rightarrow> (string \<times> pyval) list \<Rightarrow> error + (string \<times> pyval) list" where
  "resolve_fields [] given = Inr []"
| "resolve_fields ((name, dflt) # fs) given =
     (case field_value given name dflt of
        Inl e \<Rightarrow> Inl e
      | Inr v \<Rightarrow>
          (case resolve_fields fs given of
             Inl e \<Rightarrow> Inl e
           | Inr vs \<Rightarrow> Inr ((name, v) # vs)))"

subsection \<open>Restoring from a checkpoint (\<^verbatim>\<open>main\<close>, lines 203-223 and 237-238)\<close>

text \<open>
  A parameter tensor is its shape and its content; a state dict lists the named
  parameters of a module.
\<close>

type_synonym 'v tensor = "nat list \<times> 'v"
type_synonym 'v state_dict = "(string \<times> 'v tensor) list"

text \<open>
  \<^verbatim>\<open>torch.nn.Module.load_state_dict\<close> with its default \<^verbatim>\<open>strict=True\<close> (PyTorch, an
  external library), after its documentation: every own parameter for which the given
  dict has an entry of the same shape is overwritten; afterwards \<^verbatim>\<open>RuntimeError\<close> is
  raised if a key was missing or unexpected or a shape differed. The result is the new
  parameters and the exception, if any.
\<close>

definition load_state_dict :: "'v state_dict \<Rightarrow> 'v state_dict \<Rightarrow> 'v state_dict \<times> error option" where
  "load_state_dict own sd =
     (map (\<lambda>(k, t). case map_of sd k of
                       Some t' \<Rightarrow> if fst t' = fst t then (k, t') else (k, t)
                     | None \<Rightarrow> (k, t)) own,
      if set (map fst sd) = set (map fst own)
         \<and> list_all (\<lambda>(k, t). case map_of sd k of Some t' \<Rightarrow> fst t' = fst t | None \<Rightarrow> False) own
      then None else Some RuntimeError)"

text \<open>
  Modelled from the spec: \<^verbatim>\<open>set_init_dict\<close> of \<^verbatim>\<open>TTS/utils/generic_utils.py\<close> is not
  among the sources. The specification says of it: a partial load that copies only
  matching parameters by name and shape, leaving the rest at their freshly initialized
  values.
\<close>

definition set_init_dict :: "'v state_dict \<Rightarrow> 'v state_dict \<Rightarrow> 'v state_dict" where
  "set_init_dict model_dict checkpoint_state =
     map (\<lambda>(k, t). case map_of checkpoint_state k of
                      Some t' \<Rightarrow> if fst t' = fst t then (k, t') else (k, t)
                    | None \<Rightarrow> (k, t)) model_dict"

text \<open>
  The checkpoint file as \<^verbatim>\<open>load_fsspec\<close> returns it: a dict whose entries \<^verbatim>\<open>"model"\<close>,
  \<^verbatim>\<open>"criterion"\<close> and \<^verbatim>\<open>"step"\<close> may each be absent.
\<close>

record 'v checkpoint =
  ck_model :: "'v state_dict option"
  ck_criterion :: "'v state_dict option"
  ck_step :: "int option"

text \<open>
  What the restore block of \<^verbatim>\<open>main\<close> changes: the parameters of the model and of the
  criterion, and the learning rate of every parameter group of the optimizer.
\<close>

record 'v session =
  model :: "'v state_dict"
  criterion :: "'v state_dict"
  param_group_lrs :: "real list"

text \<open>The body of the \<^verbatim>\<open>try\<close> (lines 206-209): the state it leaves and the exception.\<close>

definition restore_try :: "'v checkpoint \<Rightarrow> 'v session \<Rightarrow> 'v session \<times> error option" where
  "restore_try ck st =
     (case ck_model ck of
        None \<Rightarrow> (st, Some KeyError)
      | Some sd \<Rightarrow>
          (case load_state_dict (model st) sd of
             (m, Some e) \<Rightarrow> (st\<lparr>model := m\<rparr>, Some e)
           | (m, None) \<Rightarrow>
               (case ck_criterion ck of
                  None \<Rightarrow> (st\<lparr>model := m\<rparr>, None)
                | Some csd \<Rightarrow>
                    (case load_state_dict (criterion st) csd of
                       (cr, err) \<Rightarrow> (st\<lparr>model := m, criterion := cr\<rparr>, err)))))"

text \<open>The handler of \<^verbatim>\<open>KeyError\<close> and \<^verbatim>\<open>RuntimeError\<close> (lines 212-216).\<close>

definition restore_except :: "'v checkpoint \<Rightarrow> 'v session \<Rightarrow> error + 'v session" where
  "restore_except ck st =
     (case ck_model ck of
        None \<Rightarrow> Inl KeyError
      | Some sd \<Rightarrow>
          (let model_dict = set_init_dict (model st) sd
           in case load_state_dict (model st) model_dict of
                (m, Some e) \<Rightarrow> Inl e
              | (m, None) \<Rightarrow> Inr (st\<lparr>model := m\<rparr>)))"

text \<open>
  Lines 203-223. \<^verbatim>\<open>args.restore_path\<close> is \<^verbatim>\<open>None\<close> or a string, and an empty string
  is false in Python. The result is the restored session and \<^verbatim>\<open>args.restore_step\<close>.
\<close>

definition main_restore ::
  "string option \<Rightarrow> (string \<Rightarrow> 'v checkpoint) \<Rightarrow> config \<Rightarrow> 'v session \<Rightarrow> error + ('v session \<times> int)" where
  "main_restore restore_path load_fsspec c st =
     (case restore_path of
        None \<Rightarrow> Inr (st, 0)
      | Some path \<Rightarrow>
          if path = [] then Inr (st, 0)
          else
            (let checkpoint = load_fsspec path
             in case (case restore_try checkpoint st of
                        (st1, None) \<Rightarrow> Inr st1
                      | (st1, Some e) \<Rightarrow> restore_except checkpoint st1) of
                  Inl e \<Rightarrow> Inl e
                | Inr st2 \<Rightarrow>
                    (let st3 = st2\<lparr>param_group_lrs := map (\<lambda>group. lr c) (param_group_lrs st2)\<rparr>
                     in case ck_step checkpoint of
                          None \<Rightarrow> Inl KeyError
                        | Some step \<Rightarrow> Inr (st3, step))))"

text \<open>
  Lines 237-238: the restored step is the \<^verbatim>\<open>global_step\<close> the loop starts from. The
  construction of the model, the criterion, the optimizer and the scheduler (lines
  179-201 and 225-235) is left to the collaborators.
\<close>

definition main ::
  "string option \<Rightarrow> (string \<Rightarrow> 'v checkpoint) \<Rightarrow> config \<Rightarrow> 'v session
     \<Rightarrow> ('a, 'b) batch list \<Rightarrow> error + (real \<times> int)" where
  "main restore_path load_fsspec c st train_data_loader =
     (case main_restore restore_path load_fsspec c st of
        Inl e \<Rightarrow> Inl e
      | Inr (st', restore_step) \<Rightarrow> train c train_data_loader restore_step)"

text \<open>
  A parameter after a load, against the same parameter before it: the name is the same,
  and the tensor is the old one or the entry of that name and shape in the given dict.
\<close>

definition copied_or_kept :: "'v state_dict \<Rightarrow> string \<times> 'v tensor \<Rightarrow> string \<times> 'v tensor \<Rightarrow> bool" where
  "copied_or_kept sd p p' \<longleftrightarrow>
     fst p' = fst p
     \<and> (snd p' = snd p \<or> (map_of sd (fst p) = Some (snd p') \<and> fst (snd p') = fst (snd p)))"

subsection \<open>A concrete run\<close>

text \<open>
  The end-to-end scenario of the specification: \<^verbatim>\<open>max_train_step = 5\<close> and
  \<^verbatim>\<open>save_step = 1000\<close>, the other cadences at their defaults, two classes of three
  utterances per batch, two loader workers.
\<close>

definition example_config :: config where
  "example_config =
     \<lparr>model_params = [(''model_name'', PStr ''lstm''), (''input_dim'', PInt 80)],
      audio = \<lparr>num_mels = 80\<rparr>,
      max_train_step = 5, lr = 1 / 10000, steps_plot_stats = 10, save_step = 1000,
      print_step = 20, num_classes_in_batch = 2, num_utter_per_class = 3,
      num_loader_workers = 2\<rparr>"

definition example_batch :: "real \<Rightarrow> real \<Rightarrow> (string, nat) batch" where
  "example_batch l t =
     \<lparr>inputs = [''a1'', ''b1'', ''a2'', ''b2'', ''a3'', ''b3''], labels = [0, 1, 0, 1, 0, 1],
      loss_item = l, loader_time = t, step_time = 1\<rparr>"

text \<open>
  A model of two parameters and a checkpoint that fits it only in part: \<open>w\<close> has
  another shape in the checkpoint, and the checkpoint has a parameter the model lacks.
\<close>

definition example_model :: "nat state_dict" where
  "example_model = [(''w'', ([2, 3], 0)), (''b'', ([3], 0))]"
definition example_checkpoint :: "nat checkpoint" where
  "example_checkpoint = \<lparr>ck_model = Some [(''w'', ([4, 3], 7)), (''b'', ([3], 8)), (''extra'', ([1], 9))],
     ck_criterion = Some [(''cw'', ([1], 5))], ck_step = Some 1234\<rparr>"
definition example_session :: "nat session" where
  "example_session = \<lparr>model = example_model, criterion = [(''cw'', ([1], 0)), (''cb'', ([1], 0))], param_group_lrs = [1, 2]\<rparr>"

section \<open>Properties of the regrouping transform\<close>

lemma image_mset_upt_sum:
  "image_mset g (mset_set {0..<r::nat}) = (\<Sum>i\<in>{0..<r}. {# g i #})"
  by (induction r) (simp_all add: atLeast0_lessThan_Suc)

lemma mset_grid_sum:
  "mset (concat (map (\<lambda>j. map (\<lambda>i. f i j) [0..<r]) [0..<c]))
     = (\<Sum>j\<in>{0..<c}. \<Sum>i\<in>{0..<r}. {# f i j #})"
  by (induction c) (simp_all add: image_mset_upt_sum)

lemma mset_grid_swap:
  "mset (concat (map (\<lambda>j. map (\<lambda>i. f i j) [0..<r]) [0..<c]))
     = mset (concat (map (\<lambda>i. map (\<lambda>j. f i j) [0..<c]) [0..<r]))"
  unfolding mset_grid_sum by (rule sum.swap)

lemma upt_last_block: "[0..<Suc c * r] = [0..<c * r] @ map (\<lambda>i. i + c * r) [0..<r]"
proof -
  have "[0..<c * r + r] = [0..<c * r] @ [c * r..<c * r + r]"
    by (rule upt_add_eq_append) simp
  moreover have "[c * r..<c * r + r] = map (\<lambda>i. i + c * r) [0..<r]"
    by (simp only: map_add_upt add.commute[of r])
  moreover have "Suc c * r = c * r + r" by simp
  ultimately show ?thesis by (simp only:)
qed

lemma last_block_row:
  "map (\<lambda>k. f (k mod r) (k div r)) (map (\<lambda>i. i + c * r) [0..<r]) = map (\<lambda>i. f i c) [0..<(r::nat)]"
  by (simp add: comp_def)

lemma concat_grid:
  "concat (map (\<lambda>j. map (\<lambda>i. f i j) [0..<r]) [0..<c])
     = map (\<lambda>k. f (k mod r) (k div r)) [0..<c * r]"
proof (induction c)
  case 0
  show ?case by simp
next
  case (Suc c)
  have "concat (map (\<lambda>j. map (\<lambda>i. f i j) [0..<r]) [0..<Suc c])
      = concat (map (\<lambda>j. map (\<lambda>i. f i j) [0..<r]) [0..<c]) @ map (\<lambda>i. f i c) [0..<r]"
    by simp
  also have "\<dots> = map (\<lambda>k. f (k mod r) (k div r)) [0..<c * r] @ map (\<lambda>i. f i c) [0..<r]"
    by (simp only: Suc.IH)
  also have "\<dots> = map (\<lambda>k. f (k mod r) (k div r)) [0..<Suc c * r]"
    by (simp only: upt_last_block map_append last_block_row)
  finally show ?case .
qed

lemma transpose01_view2:
  "transpose01 r c (view2 r c xs) = map (\<lambda>j. map (\<lambda>i. xs ! (i * c + j)) [0..<r]) [0..<c]"
  unfolding transpose01_def view2_def by (rule map_cong[OF refl]) simp

lemma concat_view2:
  assumes "length xs = r * c"
  shows "concat (view2 r c xs) = xs"
proof -
  have "concat (view2 r c xs) = map (\<lambda>k. xs ! (k div c * c + k mod c)) [0..<r * c]"
    unfolding view2_def by (rule concat_grid)
  also have "\<dots> = map (\<lambda>k. xs ! k) [0..<length xs]"
    by (simp add: assms)
  also have "\<dots> = xs" by (rule map_nth)
  finally show ?thesis .
qed

lemma regroup_flat:
  "concat (transpose01 r c (view2 r c xs)) = map (\<lambda>k. xs ! regroup_index r c k) [0..<c * r]"
  unfolding transpose01_view2 regroup_index_def by (rule concat_grid)

lemma mset_regroup_flat:
  assumes "length xs = r * c"
  shows "mset (concat (transpose01 r c (view2 r c xs))) = mset xs"
proof -
  have "mset (concat (transpose01 r c (view2 r c xs)))
      = mset (concat (map (\<lambda>j. map (\<lambda>i. xs ! (i * c + j)) [0..<r]) [0..<c]))"
    by (simp only: transpose01_view2)
  also have "\<dots> = mset (concat (map (\<lambda>i. map (\<lambda>j. xs ! (i * c + j)) [0..<c]) [0..<r]))"
    by (rule mset_grid_swap)
  also have "\<dots> = mset (concat (view2 r c xs))"
    by (simp only: view2_def)
  finally show ?thesis by (simp only: concat_view2[OF assms])
qed

lemma regroup_index_less:
  assumes "k < c * r"
  shows "regroup_index r c k < c * r"
proof -
  have r: "0 < r" using assms by (cases r) simp_all
  have "k div r < c" using assms r by (simp add: less_mult_imp_div_less mult.commute)
  moreover have "k mod r < r" using r by simp
  then have "Suc (k mod r) * c \<le> r * c" by (intro mult_le_mono1) simp
  ultimately show ?thesis unfolding regroup_index_def by (simp add: mult.commute)
qed

lemma regroup_index_inverse:
  assumes "k < c * r"
  shows "regroup_index c r (regroup_index r c k) = k"
proof -
  have r: "0 < r" using assms by (cases r) simp_all
  have d: "k div r < c" using assms r by (simp add: less_mult_imp_div_less mult.commute)
  have "(k mod r * c + k div r) mod c = k div r" using d by simp
  moreover have "(k mod r * c + k div r) div c = k mod r" using d by simp
  ultimately show ?thesis unfolding regroup_index_def by simp
qed

lemma regroup_index_bij: "bij_betw (regroup_index r c) {0..<c * r} {0..<c * r}"
proof (rule bij_betw_byWitness[where f' = "regroup_index c r"])
  show "\<forall>k\<in>{0..<c * r}. regroup_index c r (regroup_index r c k) = k"
    by (simp add: regroup_index_inverse)
  show "\<forall>k\<in>{0..<c * r}. regroup_index r c (regroup_index c r k) = k"
    by (simp add: regroup_index_inverse mult.commute)
  show "regroup_index r c ` {0..<c * r} \<subseteq> {0..<c * r}"
    using regroup_index_less by auto
  show "regroup_index c r ` {0..<c * r} \<subseteq> {0..<c * r}"
    using regroup_index_less[of _ r c] by (auto simp: mult.commute)
qed

lemma regroup_flat_inverse:
  assumes "length xs = r * c"
  shows "concat (transpose01 c r (view2 c r (concat (transpose01 r c (view2 r c xs))))) = xs"
proof -
  let ?ys = "map (\<lambda>k. xs ! regroup_index r c k) [0..<c * r]"
  have "map (\<lambda>k. ?ys ! regroup_index c r k) [0..<r * c] = map (\<lambda>k. xs ! k) [0..<r * c]"
  proof (rule map_cong[OF refl])
    fix k assume "k \<in> set [0..<r * c]"
    then have k: "k < r * c" by simp
    then have "regroup_index c r k < c * r"
      using regroup_index_less[of k r c] by (simp add: mult.commute)
    then have "?ys ! regroup_index c r k = xs ! regroup_index r c (regroup_index c r k)"
      by simp
    also have "\<dots> = xs ! k" using regroup_index_inverse[of k r c] k by simp
    finally show "?ys ! regroup_index c r k = xs ! k" .
  qed
  also have "\<dots> = xs" using map_nth[of xs] by (simp only: assms)
  finally show ?thesis by (simp only: regroup_flat)
qed

lemma regroup_flat_zip:
  assumes "length xs = r * c" and "length ys = r * c"
  shows "zip (concat (transpose01 r c (view2 r c xs))) (concat (transpose01 r c (view2 r c ys)))
       = concat (transpose01 r c (view2 r c (zip xs ys)))"
proof -
  have "zip (map (\<lambda>k. xs ! regroup_index r c k) [0..<c * r])
            (map (\<lambda>k. ys ! regroup_index r c k) [0..<c * r])
      = map (\<lambda>k. (xs ! regroup_index r c k, ys ! regroup_index r c k)) [0..<c * r]"
    by (simp add: zip_map_map zip_same_conv_map)
  also have "\<dots> = map (\<lambda>k. zip xs ys ! regroup_index r c k) [0..<c * r]"
  proof (rule map_cong[OF refl])
    fix k assume "k \<in> set [0..<c * r]"
    then have "regroup_index r c k < r * c"
      using regroup_index_less[of k c r] by (simp add: mult.commute)
    then show "(xs ! regroup_index r c k, ys ! regroup_index r c k) = zip xs ys ! regroup_index r c k"
      using assms by simp
  qed
  finally show ?thesis by (simp only: regroup_flat)
qed

text \<open>
  Claim C2. For every batch of size \<open>N = num_classes_in_batch * num_utter_per_class\<close>
  the regrouping transform succeeds on features and labels, it is the permutation of the
  \<open>N\<close> positions given by \<open>regroup_index\<close>, which is a bijection on \<open>{0..<N}\<close>;
  applying the transform with the two axes exchanged (the inverse transpose) returns the
  original ordering; and the multiset of (feature, label) pairs is unchanged.
\<close>

theorem regroup_bijective_label_preserving:
  assumes u: "0 < u" and c: "0 < c"
    and li: "int (length feats) = c * u" and ll: "int (length labs) = c * u"
  shows "\<exists>feats' labs'.
           regroup u c feats = Inr feats' \<and> regroup u c labs = Inr labs'
         \<and> feats' = map (\<lambda>k. feats ! regroup_index (nat u) (nat c) k) [0..<length feats]
         \<and> labs' = map (\<lambda>k. labs ! regroup_index (nat u) (nat c) k) [0..<length labs]
         \<and> bij_betw (regroup_index (nat u) (nat c)) {0..<length feats} {0..<length feats}
         \<and> regroup c u feats' = Inr feats \<and> regroup c u labs' = Inr labs
         \<and> mset (zip feats' labs') = mset (zip feats labs)"
proof -
  have n: "nat c * nat u = nat (c * u)" using u c by (simp add: nat_mult_distrib)
  have leni: "length feats = nat u * nat c" using li n by (simp add: mult.commute)
  have lenl: "length labs = nat u * nat c" using ll n by (simp add: mult.commute)
  let ?f = "\<lambda>xs. concat (transpose01 (nat u) (nat c) (view2 (nat u) (nat c) xs))"
  have ri: "regroup u c feats = Inr (?f feats)"
    using u c li by (simp add: regroup_def mult.commute)
  have rl: "regroup u c labs = Inr (?f labs)"
    using u c ll by (simp add: regroup_def mult.commute)
  have flat_i: "?f feats = map (\<lambda>k. feats ! regroup_index (nat u) (nat c) k) [0..<length feats]"
    by (simp only: regroup_flat leni mult.commute)
  have flat_l: "?f labs = map (\<lambda>k. labs ! regroup_index (nat u) (nat c) k) [0..<length labs]"
    by (simp only: regroup_flat lenl mult.commute)
  have bij: "bij_betw (regroup_index (nat u) (nat c)) {0..<length feats} {0..<length feats}"
    using regroup_index_bij[of "nat u" "nat c"] by (simp only: leni mult.commute)
  have len_fi: "length (?f feats) = length feats" by (simp only: flat_i length_map length_upt diff_zero)
  have len_fl: "length (?f labs) = length labs" by (simp only: flat_l length_map length_upt diff_zero)
  have bi: "regroup c u (?f feats) = Inr feats"
    using u c li by (simp add: regroup_def len_fi regroup_flat_inverse[OF leni])
  have bl: "regroup c u (?f labs) = Inr labs"
    using u c ll by (simp add: regroup_def len_fl regroup_flat_inverse[OF lenl])
  have "length (zip feats labs) = nat u * nat c" using leni lenl by simp
  then have ms: "mset (zip (?f feats) (?f labs)) = mset (zip feats labs)"
    by (simp only: regroup_flat_zip[OF leni lenl] mset_regroup_flat)
  from ri rl flat_i flat_l bij bi bl ms show ?thesis by blast
qed

theorem regroup_bijective_label_preserving_witness:
  "regroup 2 3 [3, 2, 1, 3, 2, 1 :: nat] = Inr [3, 3, 2, 2, 1, 1]
   \<and> regroup 3 2 [3, 3, 2, 2, 1, 1 :: nat] = Inr [3, 2, 1, 3, 2, 1]
   \<and> (\<exists>feats' labs'.
           regroup 2 3 [''a'', ''b'', ''c'', ''d'', ''e'', ''f''] = Inr feats'
         \<and> regroup 2 3 [3, 2, 1, 3, 2, 1 :: nat] = Inr labs'
         \<and> mset (zip feats' labs')
             = mset (zip [''a'', ''b'', ''c'', ''d'', ''e'', ''f''] [3, 2, 1, 3, 2, 1]))"
proof -
  have e1: "regroup 2 3 [3, 2, 1, 3, 2, 1 :: nat] = Inr [3, 3, 2, 2, 1, 1]"
    by (simp add: regroup_def view2_def transpose01_def upt_rec)
  have e2: "regroup 3 2 [3, 3, 2, 2, 1, 1 :: nat] = Inr [3, 2, 1, 3, 2, 1]"
    by (simp add: regroup_def view2_def transpose01_def upt_rec)
  have "\<exists>feats' labs'.
           regroup 2 3 [''a'', ''b'', ''c'', ''d'', ''e'', ''f''] = Inr feats'
         \<and> regroup 2 3 [3, 2, 1, 3, 2, 1 :: nat] = Inr labs'
         \<and> mset (zip feats' labs')
             = mset (zip [''a'', ''b'', ''c'', ''d'', ''e'', ''f''] [3, 2, 1, 3, 2, 1])"
    using regroup_bijective_label_preserving
      [of 2 3 "[''a'', ''b'', ''c'', ''d'', ''e'', ''f'']" "[3, 2, 1, 3, 2, 1 :: nat]"]
    by simp
  with e1 e2 show ?thesis by blast
qed

section \<open>Properties of the training loop\<close>

lemma train_step_counts:
  assumes "train_step c d s = Inr (s', brk)"
  shows "global_step s' = global_step s + 1"
    and "processed s' = Suc (processed s)"
    and "brk \<longleftrightarrow> max_train_step c \<le> global_step s + 1"
  using assms unfolding train_step_def save_block_def
  by (auto simp: Let_def split: sum.splits if_splits prod.splits)

lemma train_step_avgs:
  assumes "train_step c d s = Inr (s', brk)"
  shows "avg_loss s' = (if avg_loss s \<noteq> 0 then 0.01 * loss_item d + 0.99 * avg_loss s
                         else loss_item d)"
    and "avg_loader_time s' =
           (if avg_loader_time s \<noteq> 0
            then 1 / real_of_int (if num_loader_workers c > 0 then num_loader_workers c else 1)
                   * loader_time d
                 + real_of_int ((if num_loader_workers c > 0 then num_loader_workers c else 1) - 1)
                   / real_of_int (if num_loader_workers c > 0 then num_loader_workers c else 1)
                   * avg_loader_time s
            else loader_time d)"
  using assms unfolding train_step_def save_block_def
  by (auto simp: Let_def split: sum.splits if_splits prod.splits)

lemma train_step_total:
  assumes "batch_ok c d" and "cadence_ok c"
  shows "\<exists>s' brk. train_step c d s = Inr (s', brk)"
  using assms unfolding train_step_def batch_ok_def cadence_ok_def
  by (auto simp: regroup_def py_mod_def Let_def)

lemma train_step_checkpoints:
  assumes "train_step c d s = Inr (s', brk)"
  shows "checkpoints s' =
           (if (max_train_step c \<le> global_step s' \<or> global_step s' mod save_step c = 0)
               \<and> is_best (avg_loss s') (best_loss s)
            then (global_step s', avg_loss s') # checkpoints s else checkpoints s)"
    and "best_loss s' =
           (if (max_train_step c \<le> global_step s' \<or> global_step s' mod save_step c = 0)
               \<and> is_best (avg_loss s') (best_loss s)
            then Some (avg_loss s') else best_loss s)"
  using assms unfolding train_step_def save_block_def save_best_model_def py_mod_def
  by (auto simp: Let_def split: sum.splits if_splits prod.splits)

lemma train_loop_counts:
  "train_loop c ds s = Inr s' \<Longrightarrow>
     global_step s' - global_step s = int (processed s' - processed s)
     \<and> processed s \<le> processed s'
     \<and> processed s' - processed s
         = (if ds = [] then 0 else min (length ds) (nat (max 1 (max_train_step c - global_step s))))"
proof (induction ds arbitrary: s)
  case Nil
  then show ?case by simp
next
  case (Cons d ds)
  from Cons.prems obtain s1 brk where st: "train_step c d s = Inr (s1, brk)"
    by (auto split: sum.splits)
  note cnt = train_step_counts[OF st]
  show ?case
  proof (cases brk)
    case True
    with Cons.prems st have "s' = s1" by simp
    with cnt True show ?thesis by auto
  next
    case False
    with Cons.prems st have rest: "train_loop c ds s1 = Inr s'" by simp
    from Cons.IH[OF rest] cnt False show ?thesis
      by (auto simp: min_def max_def split: if_splits)
  qed
qed

lemma train_loop_total:
  assumes "cadence_ok c" and "\<forall>d\<in>set ds. batch_ok c d"
  shows "\<exists>s'. train_loop c ds s = Inr s'"
  using assms(2)
proof (induction ds arbitrary: s)
  case Nil
  show ?case by simp
next
  case (Cons d ds)
  then have "batch_ok c d" by simp
  from train_step_total[OF this assms(1)] obtain s1 brk
    where st: "train_step c d s = Inr (s1, brk)" by blast
  from Cons obtain s2 where "train_loop c ds s1 = Inr s2" by fastforce
  with st show ?case by simp
qed

lemma train_loop_new_checkpoints:
  "train_loop c ds s = Inr s' \<Longrightarrow>
     \<exists>new. checkpoints s' = new @ checkpoints s
       \<and> (\<forall>(st, l)\<in>set new. global_step s < st \<and> st \<le> global_step s'
             \<and> (max_train_step c \<le> st \<or> st mod save_step c = 0))"
proof (induction ds arbitrary: s)
  case Nil
  then show ?case by simp
next
  case (Cons d ds)
  from Cons.prems obtain s1 brk where st: "train_step c d s = Inr (s1, brk)"
    by (auto split: sum.splits)
  note cnt = train_step_counts[OF st]
  from train_step_checkpoints(1)[OF st] obtain new1 where
    n1: "checkpoints s1 = new1 @ checkpoints s"
    and p1: "\<forall>(t, l)\<in>set new1. t = global_step s1
               \<and> (max_train_step c \<le> t \<or> t mod save_step c = 0)"
    by (cases "(max_train_step c \<le> global_step s1 \<or> global_step s1 mod save_step c = 0)
               \<and> is_best (avg_loss s1) (best_loss s)") auto
  show ?case
  proof (cases brk)
    case True
    with Cons.prems st have "s' = s1" by simp
    with n1 p1 cnt show ?thesis by auto
  next
    case False
    with Cons.prems st have rest: "train_loop c ds s1 = Inr s'" by simp
    from Cons.IH[OF rest] obtain new2 where
      n2: "checkpoints s' = new2 @ checkpoints s1"
      and p2: "\<forall>(t, l)\<in>set new2. global_step s1 < t \<and> t \<le> global_step s'
                 \<and> (max_train_step c \<le> t \<or> t mod save_step c = 0)"
      by blast
    from train_loop_counts[OF rest] have mono: "global_step s1 \<le> global_step s'" by linarith
    have "checkpoints s' = (new2 @ new1) @ checkpoints s" using n1 n2 by simp
    moreover have "\<forall>(t, l)\<in>set (new2 @ new1). global_step s < t \<and> t \<le> global_step s'
                 \<and> (max_train_step c \<le> t \<or> t mod save_step c = 0)"
      using p1 p2 cnt(1) mono by fastforce
    ultimately show ?thesis by blast
  qed
qed

lemma train_loop_only_final_save:
  assumes "train_loop c ds s = Inr s'"
    and "global_step s < max_train_step c"
    and "max_train_step c - global_step s \<le> int (length ds)"
    and "\<forall>t. global_step s < t \<and> t < max_train_step c \<longrightarrow> t mod save_step c \<noteq> 0"
  shows "global_step s' = max_train_step c
       \<and> checkpoints s' =
           (if is_best (avg_loss s') (best_loss s)
            then (max_train_step c, avg_loss s') # checkpoints s else checkpoints s)"
  using assms
proof (induction ds arbitrary: s)
  case Nil
  then show ?case by simp
next
  case (Cons d ds)
  from Cons.prems(1) obtain s1 brk where st: "train_step c d s = Inr (s1, brk)"
    by (auto split: sum.splits)
  note cnt = train_step_counts[OF st]
  note chk = train_step_checkpoints[OF st]
  show ?case
  proof (cases brk)
    case True
    with Cons.prems(1) st have s': "s' = s1" by simp
    from True cnt Cons.prems(2) have "global_step s1 = max_train_step c" by simp
    with chk(1) s' show ?thesis by simp
  next
    case False
    with Cons.prems(1) st have rest: "train_loop c ds s1 = Inr s'" by simp
    from False cnt have lt: "global_step s1 < max_train_step c" by simp
    with Cons.prems(4) cnt(1) have quiet: "global_step s1 mod save_step c \<noteq> 0" by simp
    from chk lt quiet have same: "checkpoints s1 = checkpoints s" "best_loss s1 = best_loss s"
      by simp_all
    have "max_train_step c - global_step s1 \<le> int (length ds)"
      using Cons.prems(3) cnt(1) by simp
    moreover have "\<forall>t. global_step s1 < t \<and> t < max_train_step c \<longrightarrow> t mod save_step c \<noteq> 0"
      using Cons.prems(4) cnt(1) by simp
    ultimately show ?thesis
      using Cons.IH[OF rest lt] same by simp
  qed
qed

lemma example_cadence_ok: "cadence_ok example_config"
  by (simp add: cadence_ok_def example_config_def)

lemma example_batch_ok: "batch_ok example_config (example_batch l t)"
  by (simp add: batch_ok_def example_config_def example_batch_def)

lemma example_step:
  "train_step example_config (example_batch l t) s =
     (let step = global_step s + 1;
          avg = (if avg_loss s \<noteq> 0 then 0.01 * l + 0.99 * avg_loss s else l);
          alt = (if avg_loader_time s \<noteq> 0 then 1 / 2 * t + 1 / 2 * avg_loader_time s else t);
          s2 = s\<lparr>global_step := step, epoch_time := epoch_time s + 1,
                 avg_loss := avg, avg_loader_time := alt,
                 processed := Suc (processed s), avg_loss_all := avg_loss_all s + avg\<rparr>
      in if 5 \<le> step then Inr (save_block s2, True)
         else if step mod 1000 = 0 then Inr (save_block s2, False) else Inr (s2, False))"
  by (simp add: train_step_def regroup_def py_mod_def example_config_def example_batch_def Let_def)

text \<open>
  Claim C1, as amended. \<open>global_step\<close> increases by exactly 1 for every processed
  batch. The step budget is tested at the end of the loop body: a run over well-formed
  batches returns the smoothed loss and the step count after
  \<open>min (length ds) (max 1 (max_train_step - g))\<close> batches, where \<open>g\<close> is the initial
  \<open>global_step\<close>. Entered below \<open>max_train_step\<close>, the loop never takes \<open>global_step\<close>
  beyond \<open>max_train_step\<close> and stops exactly there when the loader holds enough batches.
  Entered at or above \<open>max_train_step\<close>, it still processes one batch (the
  counterexample after the witness).
\<close>

theorem train_step_budget:
  assumes "cadence_ok c" and "\<forall>d\<in>set ds. batch_ok c d"
  shows "\<exists>s'. train_loop c ds (init_state g) = Inr s'
           \<and> train c ds g = Inr (avg_loss s', global_step s')
           \<and> global_step s' = g + int (processed s')
           \<and> processed s' =
               (if ds = [] then 0 else min (length ds) (nat (max 1 (max_train_step c - g))))
           \<and> (g < max_train_step c \<longrightarrow> global_step s' \<le> max_train_step c)
           \<and> (g < max_train_step c \<and> max_train_step c - g \<le> int (length ds)
                \<longrightarrow> global_step s' = max_train_step c)"
proof -
  from train_loop_total[OF assms] obtain s'
    where run: "train_loop c ds (init_state g) = Inr s'" by blast
  have g0: "global_step (init_state g) = g" and p0: "processed (init_state g) = 0"
    by (simp_all add: init_state_def)
  from train_loop_counts[OF run] g0 p0
  have step: "global_step s' = g + int (processed s')"
    and cnt: "processed s' =
               (if ds = [] then 0 else min (length ds) (nat (max 1 (max_train_step c - g))))"
    by simp_all
  have ret: "train c ds g = Inr (avg_loss s', global_step s')"
    by (simp add: train_def run)
  have le: "g < max_train_step c \<longrightarrow> global_step s' \<le> max_train_step c"
    using step cnt by (auto simp: min_def max_def split: if_splits)
  have eq: "g < max_train_step c \<and> max_train_step c - g \<le> int (length ds)
              \<longrightarrow> global_step s' = max_train_step c"
    using step cnt by (auto simp: min_def max_def split: if_splits)
  from run ret step cnt le eq show ?thesis by blast
qed

theorem train_step_budget_witness:
  "\<exists>s'. train_loop example_config (replicate 7 (example_batch 2 1)) (init_state 0) = Inr s'
         \<and> train example_config (replicate 7 (example_batch 2 1)) 0 = Inr (avg_loss s', 5)
         \<and> processed s' = 5"
proof -
  have ok: "\<forall>d\<in>set (replicate 7 (example_batch 2 1)). batch_ok example_config d"
    by (simp add: example_batch_ok)
  from train_step_budget[OF example_cadence_ok ok, of 0] obtain s'
    where "train_loop example_config (replicate 7 (example_batch 2 1)) (init_state 0) = Inr s'"
      and "train example_config (replicate 7 (example_batch 2 1)) 0
             = Inr (avg_loss s', global_step s')"
      and "global_step s' = 0 + int (processed s')"
      and "processed s' =
             (if replicate 7 (example_batch 2 1) = [] then 0
              else min (length (replicate 7 (example_batch 2 1)))
                     (nat (max 1 (max_train_step example_config - 0))))"
    by blast
  moreover have "max_train_step example_config = 5" by (simp add: example_config_def)
  ultimately show ?thesis by auto
qed

theorem train_past_budget_counterexample:
  "max_train_step example_config = 5
   \<and> train example_config [example_batch 2 1] 5 = Inr (2, 6)"
  by (simp add: train_def example_step init_state_def save_block_def save_best_model_def
        is_best_def Let_def) (simp add: example_config_def)

text \<open>
  Claim C3, as amended. The smoothed loss starts at 0, so the first observed loss seeds
  it. In every iteration the new average is \<open>0.01 * L + 0.99 * avg\<close> when the previous
  average is not 0, and the new loss \<open>L\<close> itself when the previous average is 0: the
  test on line 128 is on the value of the average, not on the number of observations,
  so an average of exactly 0 is seeded again (the counterexample after the witness).
\<close>

theorem avg_loss_update:
  "avg_loss (init_state g) = 0
   \<and> (train_step c d s = Inr (s', brk) \<longrightarrow>
        avg_loss s' = (if avg_loss s = 0 then loss_item d
                       else 0.01 * loss_item d + 0.99 * avg_loss s))"
  using train_step_avgs(1)[of c d s s' brk] by (simp add: init_state_def)

theorem avg_loss_update_witness:
  "\<exists>s' brk. train_step example_config (example_batch 3 1) ((init_state 0)\<lparr>avg_loss := 2\<rparr>)
              = Inr (s', brk)
            \<and> avg_loss s' = 201 / 100"
proof -
  from train_step_total[OF example_batch_ok example_cadence_ok] obtain s' brk
    where run: "train_step example_config (example_batch 3 1) ((init_state 0)\<lparr>avg_loss := 2\<rparr>)
                  = Inr (s', brk)"
    by blast
  from avg_loss_update[of 0 example_config "example_batch 3 1" "(init_state 0)\<lparr>avg_loss := 2\<rparr>"
      s' brk] run
  have "avg_loss s' = 201 / 100"
    by (simp add: example_batch_def)
  with run show ?thesis by blast
qed

theorem avg_loss_reseed_counterexample:
  "train example_config [example_batch 0 1, example_batch 1 1] 0 = Inr (1, 2)
   \<and> ema_spec [1, 0] = 1 / 100"
  by (simp add: train_def example_step init_state_def save_block_def save_best_model_def
        is_best_def Let_def)

text \<open>
  Claim C8, as amended. The smoothed loader latency starts at 0, so the first observation
  seeds it. In every iteration the new average is
  \<open>(1 / w) * t + ((w - 1) / w) * avg\<close>, with \<open>w\<close> the number of loader workers (1 when
  none is configured), when the previous average is not 0, and the new observation \<open>t\<close>
  itself when the previous average is 0. For zero or one worker the average is the
  newest observation in both cases.
\<close>

theorem loader_time_update:
  "avg_loader_time (init_state g) = 0
   \<and> (train_step c d s = Inr (s', brk) \<longrightarrow>
        avg_loader_time s' =
          (if avg_loader_time s = 0 then loader_time d
           else 1 / real_of_int (if num_loader_workers c > 0 then num_loader_workers c else 1)
                  * loader_time d
                + real_of_int ((if num_loader_workers c > 0 then num_loader_workers c else 1) - 1)
                  / real_of_int (if num_loader_workers c > 0 then num_loader_workers c else 1)
                  * avg_loader_time s)
        \<and> (num_loader_workers c \<le> 1 \<longrightarrow> avg_loader_time s' = loader_time d))"
proof -
  have "avg_loader_time (init_state g) = 0" by (simp add: init_state_def)
  moreover have "avg_loader_time s' =
          (if avg_loader_time s = 0 then loader_time d
           else 1 / real_of_int (if num_loader_workers c > 0 then num_loader_workers c else 1)
                  * loader_time d
                + real_of_int ((if num_loader_workers c > 0 then num_loader_workers c else 1) - 1)
                  / real_of_int (if num_loader_workers c > 0 then num_loader_workers c else 1)
                  * avg_loader_time s)"
    if "train_step c d s = Inr (s', brk)"
    using train_step_avgs(2)[OF that] by simp
  moreover have "avg_loader_time s' = loader_time d"
    if "train_step c d s = Inr (s', brk)" and "num_loader_workers c \<le> 1"
  proof (cases "num_loader_workers c > 0")
    case True
    with that(2) have "num_loader_workers c = 1" by simp
    with train_step_avgs(2)[OF that(1)] show ?thesis by simp
  next
    case False
    with train_step_avgs(2)[OF that(1)] show ?thesis by simp
  qed
  ultimately show ?thesis by blast
qed

theorem loader_time_update_witness:
  "\<exists>s' brk. train_step example_config (example_batch 3 4)
                ((init_state 0)\<lparr>avg_loader_time := 2\<rparr>) = Inr (s', brk)
            \<and> avg_loader_time s' = 3"
proof -
  from train_step_total[OF example_batch_ok example_cadence_ok] obtain s' brk
    where run: "train_step example_config (example_batch 3 4)
                  ((init_state 0)\<lparr>avg_loader_time := 2\<rparr>) = Inr (s', brk)"
    by blast
  from loader_time_update[of 0 example_config "example_batch 3 4"
      "(init_state 0)\<lparr>avg_loader_time := 2\<rparr>" s' brk] run
  have "avg_loader_time s' = 3"
    by (simp add: example_batch_def example_config_def)
  with run show ?thesis by blast
qed

theorem loader_time_reseed_counterexample:
  "num_loader_workers example_config = 2
   \<and> train_loop example_config [example_batch 2 0, example_batch 2 1] (init_state 0)
       = Inr \<lparr>global_step = 2, epoch_time = 2, best_loss = None, avg_loss = 2,
               avg_loss_all = 4, avg_loader_time = 1, checkpoints = [], processed = 2\<rparr>
   \<and> loader_ema_spec 2 [1, 0] = 1 / 2"
  by (simp add: example_step init_state_def save_block_def save_best_model_def
        is_best_def Let_def) (simp add: example_config_def)

text \<open>
  Claim C4. In an iteration a checkpoint is written exactly when \<open>global_step\<close> is a
  multiple of \<open>save_step\<close> or has reached \<open>max_train_step\<close>, and the smoothed loss is
  below the best-loss watermark, which then becomes that loss. With
  \<open>max_train_step = 5\<close> and \<open>save_step = 1000\<close>, a fresh run over at least five
  well-formed batches returns after exactly 5 steps, and the one checkpoint written is
  that of step 5.
\<close>

theorem checkpoint_rule:
  "(train_step c d s = Inr (s', brk) \<longrightarrow>
      checkpoints s' =
        (if (global_step s' mod save_step c = 0 \<or> max_train_step c \<le> global_step s')
            \<and> is_best (avg_loss s') (best_loss s)
         then (global_step s', avg_loss s') # checkpoints s else checkpoints s)
      \<and> best_loss s' =
        (if (global_step s' mod save_step c = 0 \<or> max_train_step c \<le> global_step s')
            \<and> is_best (avg_loss s') (best_loss s)
         then Some (avg_loss s') else best_loss s))
   \<and> (max_train_step c = 5 \<and> save_step c = 1000 \<and> cadence_ok c
        \<and> (\<forall>d\<in>set ds. batch_ok c d) \<and> 5 \<le> length ds \<longrightarrow>
        (\<exists>s'. train_loop c ds (init_state 0) = Inr s'
           \<and> train c ds 0 = Inr (avg_loss s', 5)
           \<and> processed s' = 5 \<and> global_step s' = 5
           \<and> checkpoints s' = [(5, avg_loss s')]))"
proof -
  have rule: "checkpoints s' =
        (if (global_step s' mod save_step c = 0 \<or> max_train_step c \<le> global_step s')
            \<and> is_best (avg_loss s') (best_loss s)
         then (global_step s', avg_loss s') # checkpoints s else checkpoints s)
      \<and> best_loss s' =
        (if (global_step s' mod save_step c = 0 \<or> max_train_step c \<le> global_step s')
            \<and> is_best (avg_loss s') (best_loss s)
         then Some (avg_loss s') else best_loss s)"
    if "train_step c d s = Inr (s', brk)"
    using train_step_checkpoints[OF that] by (simp add: disj_commute)
  have scen: "\<exists>s'. train_loop c ds (init_state 0) = Inr s'
           \<and> train c ds 0 = Inr (avg_loss s', 5)
           \<and> processed s' = 5 \<and> global_step s' = 5
           \<and> checkpoints s' = [(5, avg_loss s')]"
    if m: "max_train_step c = 5" and sv: "save_step c = 1000" and cad: "cadence_ok c"
      and ok: "\<forall>d\<in>set ds. batch_ok c d" and len: "5 \<le> length ds"
  proof -
    from train_loop_total[OF cad ok] obtain s'
      where run: "train_loop c ds (init_state 0) = Inr s'" by blast
    have i0: "global_step (init_state 0) = 0" "processed (init_state 0) = 0"
      "best_loss (init_state 0) = None" "checkpoints (init_state 0) = []"
      by (simp_all add: init_state_def)
    have quiet: "\<forall>t. global_step (init_state 0) < t \<and> t < max_train_step c
                   \<longrightarrow> t mod save_step c \<noteq> 0"
      unfolding i0 m sv by auto
    have "global_step s' = max_train_step c
       \<and> checkpoints s' =
           (if is_best (avg_loss s') (best_loss (init_state 0))
            then (max_train_step c, avg_loss s') # checkpoints (init_state 0)
            else checkpoints (init_state 0))"
      using run quiet len by (intro train_loop_only_final_save) (simp_all add: i0 m)
    then have gs: "global_step s' = 5" and ck: "checkpoints s' = [(5, avg_loss s')]"
      by (simp_all add: i0 m is_best_def)
    from train_loop_counts[OF run] gs have pr: "processed s' = 5" by (simp add: i0)
    have "train c ds 0 = Inr (avg_loss s', 5)" by (simp add: train_def run gs)
    with run gs ck pr show ?thesis by blast
  qed
  from rule scen show ?thesis by blast
qed

theorem checkpoint_rule_witness:
  "\<exists>s'. train_loop example_config (replicate 5 (example_batch 2 1)) (init_state 0) = Inr s'
         \<and> global_step s' = 5 \<and> checkpoints s' = [(5, avg_loss s')]"
proof -
  have "max_train_step example_config = 5 \<and> save_step example_config = 1000
        \<and> cadence_ok example_config
        \<and> (\<forall>d\<in>set (replicate 5 (example_batch 2 1)). batch_ok example_config d)
        \<and> 5 \<le> length (replicate 5 (example_batch 2 1))"
    by (simp add: example_cadence_ok example_batch_ok) (simp add: example_config_def)
  with checkpoint_rule[of example_config _ _ _ _ "replicate 5 (example_batch 2 1)"]
  show ?thesis by blast
qed

text \<open>
  Claim C10. The loop makes one pass over the batches of the loader: when the loader
  yields fewer batches than \<open>max_train_step - g\<close>, with \<open>g\<close> the initial
  \<open>global_step\<close>, a run over well-formed batches processes all of them and returns with
  \<open>global_step = g + length ds < max_train_step\<close>; every checkpoint it has written
  belongs to a step below \<open>max_train_step\<close> that is a multiple of \<open>save_step\<close>.
\<close>

theorem loader_exhausted:
  assumes "cadence_ok c" and "\<forall>d\<in>set ds. batch_ok c d"
    and "int (length ds) < max_train_step c - g"
  shows "\<exists>s'. train_loop c ds (init_state g) = Inr s'
           \<and> train c ds g = Inr (avg_loss s', g + int (length ds))
           \<and> processed s' = length ds
           \<and> global_step s' < max_train_step c
           \<and> (\<forall>(t, l)\<in>set (checkpoints s'). t < max_train_step c \<and> t mod save_step c = 0)"
proof -
  from train_loop_total[OF assms(1,2)] obtain s'
    where run: "train_loop c ds (init_state g) = Inr s'" by blast
  have i0: "global_step (init_state g) = g" "processed (init_state g) = 0"
    "checkpoints (init_state g) = []"
    by (simp_all add: init_state_def)
  from train_loop_counts[OF run] assms(3)
  have pr: "processed s' = length ds" and gs: "global_step s' = g + int (length ds)"
    by (auto simp: i0 min_def max_def split: if_splits)
  from gs assms(3) have lt: "global_step s' < max_train_step c" by simp
  from train_loop_new_checkpoints[OF run] lt
  have ck: "\<forall>(t, l)\<in>set (checkpoints s'). t < max_train_step c \<and> t mod save_step c = 0"
    by (fastforce simp: i0)
  have "train c ds g = Inr (avg_loss s', g + int (length ds))"
    by (simp add: train_def run gs)
  with run pr lt ck show ?thesis by blast
qed

theorem loader_exhausted_witness:
  "\<exists>s'. train_loop example_config (replicate 3 (example_batch 2 1)) (init_state 0) = Inr s'
         \<and> train example_config (replicate 3 (example_batch 2 1)) 0 = Inr (avg_loss s', 3)
         \<and> processed s' = 3"
proof -
  have ok: "\<forall>d\<in>set (replicate 3 (example_batch 2 1)). batch_ok example_config d"
    by (simp add: example_batch_ok)
  have lt: "int (length (replicate 3 (example_batch 2 1))) < max_train_step example_config - 0"
    by (simp add: example_config_def)
  from loader_exhausted[OF example_cadence_ok ok lt] show ?thesis by auto
qed

section \<open>Properties of the configuration schema\<close>

lemma field_value_Inl:
  "field_value given name dflt = Inl e \<longleftrightarrow>
     e = ConfigurationError \<and> dflt = MISSING \<and> map_of given name = None"
  by (auto simp: field_value_def split: option.splits field_default.splits)

lemma resolve_fields_Inl:
  "resolve_fields fs given = Inl e \<longleftrightarrow>
     e = ConfigurationError \<and> (\<exists>name. (name, MISSING) \<in> set fs \<and> map_of given name = None)"
proof (induction fs)
  case Nil
  show ?case by simp
next
  case (Cons f fs)
  obtain name dflt where f: "f = (name, dflt)" by (cases f)
  show ?case
  proof (cases "field_value given name dflt")
    case (Inl e')
    then have "e' = ConfigurationError" "dflt = MISSING" "map_of given name = None"
      by (simp_all add: field_value_Inl)
    with Inl f show ?thesis by auto
  next
    case (Inr v)
    then have no: "\<not> (dflt = MISSING \<and> map_of given name = None)"
      using field_value_Inl[of given name dflt] by auto
    show ?thesis
      using f Inr Cons.IH no by (auto split: sum.splits)
  qed
qed

lemma resolve_fields_missing:
  "(name, MISSING) \<in> set fs \<Longrightarrow> map_of given name = None \<Longrightarrow>
     resolve_fields fs given = Inl ConfigurationError"
  using resolve_fields_Inl[of fs given ConfigurationError] by blast

text \<open>
  Claim C5. Validation fails for every configuration whose \<^verbatim>\<open>model_params\<close> has no
  \<^verbatim>\<open>input_dim\<close> equal to \<^verbatim>\<open>audio.num_mels\<close>; when the check of the base class passes,
  the failure is the \<^verbatim>\<open>AssertionError\<close> of line 56, and with an equal \<^verbatim>\<open>input_dim\<close>
  validation passes. \<open>check_values\<close> is a function of the configuration alone: it
  allocates nothing.
\<close>

theorem check_values_input_dim:
  "(\<not> (\<exists>v. map_of (model_params self) ''input_dim'' = Some v
            \<and> py_eq v (PInt (num_mels (audio self))))
      \<longrightarrow> isl (check_values super_check_values self))
   \<and> (super_check_values self = Inr () \<and> map_of (model_params self) ''input_dim'' = Some v
      \<longrightarrow> check_values super_check_values self
          = (if py_eq v (PInt (num_mels (audio self))) then Inr () else Inl AssertionError))"
  by (auto simp: check_values_def split: sum.splits option.splits)

theorem check_values_input_dim_witness:
  "check_values (\<lambda>self. Inr ()) example_config = Inr ()
   \<and> check_values (\<lambda>self. Inr ()) (example_config\<lparr>audio := \<lparr>num_mels = 40\<rparr>\<rparr>)
       = Inl AssertionError"
proof -
  have "check_values (\<lambda>self. Inr ()) example_config = Inr ()"
    using check_values_input_dim[of example_config "\<lambda>self. Inr ()" "PInt 80"]
    by (simp add: example_config_def py_eq_def)
  moreover have "check_values (\<lambda>self. Inr ()) (example_config\<lparr>audio := \<lparr>num_mels = 40\<rparr>\<rparr>)
       = Inl AssertionError"
    using check_values_input_dim[of "example_config\<lparr>audio := \<lparr>num_mels = 40\<rparr>\<rparr>"
        "\<lambda>self. Inr ()" "PInt 80"]
    by (simp add: example_config_def py_eq_def)
  ultimately show ?thesis by blast
qed

text \<open>
  Claim C9. The schema declares \<^verbatim>\<open>num_classes_in_batch\<close>, \<^verbatim>\<open>num_utter_per_class\<close> and
  \<^verbatim>\<open>num_loader_workers\<close> without a default. Leaving any of them unset is a
  configuration error, and they are the only fields that must be given.
\<close>

theorem mandatory_batch_fields:
  "map_of BaseEncoderConfig_fields ''num_classes_in_batch'' = Some MISSING
   \<and> map_of BaseEncoderConfig_fields ''num_utter_per_class'' = Some MISSING
   \<and> map_of BaseEncoderConfig_fields ''num_loader_workers'' = Some MISSING
   \<and> (name \<in> {''num_classes_in_batch'', ''num_utter_per_class'', ''num_loader_workers''}
        \<and> map_of given name = None
        \<longrightarrow> resolve_fields BaseEncoderConfig_fields given = Inl ConfigurationError)
   \<and> (map_of given ''num_classes_in_batch'' \<noteq> None
        \<and> map_of given ''num_utter_per_class'' \<noteq> None
        \<and> map_of given ''num_loader_workers'' \<noteq> None
        \<longrightarrow> (\<exists>vs. resolve_fields BaseEncoderConfig_fields given = Inr vs))"
proof -
  have tab: "map_of BaseEncoderConfig_fields ''num_classes_in_batch'' = Some MISSING"
    "map_of BaseEncoderConfig_fields ''num_utter_per_class'' = Some MISSING"
    "map_of BaseEncoderConfig_fields ''num_loader_workers'' = Some MISSING"
    by (simp_all add: BaseEncoderConfig_fields_def)
  have unset: "resolve_fields BaseEncoderConfig_fields given = Inl ConfigurationError"
    if "name \<in> {''num_classes_in_batch'', ''num_utter_per_class'', ''num_loader_workers''}"
      and "map_of given name = None"
  proof -
    from that(1) tab have "(name, MISSING) \<in> set BaseEncoderConfig_fields"
      by (auto dest: map_of_SomeD)
    from resolve_fields_missing[OF this that(2)] show ?thesis .
  qed
  have allset: "\<exists>vs. resolve_fields BaseEncoderConfig_fields given = Inr vs"
    if "map_of given ''num_classes_in_batch'' \<noteq> None"
      and "map_of given ''num_utter_per_class'' \<noteq> None"
      and "map_of given ''num_loader_workers'' \<noteq> None"
  proof (cases "resolve_fields BaseEncoderConfig_fields given")
    case (Inl e)
    from Inl resolve_fields_Inl[of BaseEncoderConfig_fields given e] obtain name
      where "(name, MISSING) \<in> set BaseEncoderConfig_fields" and "map_of given name = None"
      by blast
    with that show ?thesis by (auto simp: BaseEncoderConfig_fields_def)
  next
    case (Inr vs)
    then show ?thesis by blast
  qed
  from tab unset allset show ?thesis by blast
qed

theorem mandatory_batch_fields_witness:
  "resolve_fields BaseEncoderConfig_fields
     [(''num_classes_in_batch'', PInt 2), (''num_utter_per_class'', PInt 3)]
   = Inl ConfigurationError"
  using mandatory_batch_fields[of "''num_loader_workers''"
      "[(''num_classes_in_batch'', PInt 2), (''num_utter_per_class'', PInt 3)]"]
  by simp

section \<open>Properties of the restore block\<close>

lemma fst_load_state_dict: "fst (load_state_dict own sd) = set_init_dict own sd"
  by (simp add: load_state_dict_def set_init_dict_def)

lemma keys_set_init_dict: "map fst (set_init_dict own sd) = map fst own"
  by (induction own) (auto simp: set_init_dict_def split: option.splits)

lemma set_init_dict_idem: "set_init_dict (set_init_dict own sd) sd = set_init_dict own sd"
  by (induction own) (auto simp: set_init_dict_def split: option.splits)

lemma set_init_dict_copied_or_kept: "list_all2 (copied_or_kept sd) own (set_init_dict own sd)"
  by (induction own) (auto simp: set_init_dict_def copied_or_kept_def split: option.splits)

lemma set_init_dict_self:
  "distinct (map fst own) \<Longrightarrow> set_init_dict own own = own"
proof (induction own)
  case Nil
  show ?case by (simp add: set_init_dict_def)
next
  case (Cons p own)
  obtain k t where p: "p = (k, t)" by (cases p)
  from Cons.prems p have notin: "k \<notin> fst ` set own" and d: "distinct (map fst own)" by auto
  have "map (\<lambda>(k', t'). case map_of ((k, t) # own) k' of
                      Some u \<Rightarrow> if fst u = fst t' then (k', u) else (k', t')
                    | None \<Rightarrow> (k', t')) own
      = map (\<lambda>(k', t'). case map_of own k' of
                      Some u \<Rightarrow> if fst u = fst t' then (k', u) else (k', t')
                    | None \<Rightarrow> (k', t')) own"
    using notin by (intro map_cong[OF refl]) (auto simp: image_iff)
  with Cons.IH[OF d] p show ?case by (simp add: set_init_dict_def)
qed

lemma shapes_self:
  "distinct (map fst own) \<Longrightarrow>
     list_all (\<lambda>(k, t). case map_of own k of Some t' \<Rightarrow> fst t' = fst t | None \<Rightarrow> False) own"
  by (auto simp: list_all_iff)

lemma load_state_dict_self:
  assumes "distinct (map fst own)"
  shows "load_state_dict own own = (own, None)"
proof -
  have "fst (load_state_dict own own) = own"
    by (simp only: fst_load_state_dict set_init_dict_self[OF assms])
  moreover have "snd (load_state_dict own own) = None"
    using shapes_self[OF assms] by (simp add: load_state_dict_def)
  ultimately show ?thesis by (simp add: prod_eq_iff)
qed

lemma restore_except_loaded:
  assumes "ck_model ck = Some sd" and "model st1 = set_init_dict own sd"
    and "distinct (map fst own)"
  shows "restore_except ck st1 = Inr st1"
proof -
  have d: "distinct (map fst (model st1))" using assms(2,3) by (simp add: keys_set_init_dict)
  have "set_init_dict (model st1) sd = model st1"
    by (simp only: assms(2) set_init_dict_idem)
  with load_state_dict_self[OF d] assms(1) show ?thesis
    by (simp add: restore_except_def)
qed

lemma restore_try_result:
  assumes "ck_model ck = Some sd"
  shows "\<exists>st1 err. restore_try ck st = (st1, err)
           \<and> model st1 = set_init_dict (model st) sd
           \<and> param_group_lrs st1 = param_group_lrs st
           \<and> (criterion st1 = criterion st
               \<or> (\<exists>csd. ck_criterion ck = Some csd
                     \<and> criterion st1 = set_init_dict (criterion st) csd))"
proof -
  obtain m e where l: "load_state_dict (model st) sd = (m, e)" by (cases "load_state_dict (model st) sd")
  then have m: "m = set_init_dict (model st) sd" using fst_load_state_dict[of "model st" sd] by simp
  show ?thesis
  proof (cases e)
    case (Some a)
    with l m assms show ?thesis by (simp add: restore_try_def)
  next
    case None
    show ?thesis
    proof (cases "ck_criterion ck")
      case N: None
      with None l m assms show ?thesis by (simp add: restore_try_def)
    next
      case (Some csd)
      obtain cr e2 where l2: "load_state_dict (criterion st) csd = (cr, e2)"
        by (cases "load_state_dict (criterion st) csd")
      then have "cr = set_init_dict (criterion st) csd"
        using fst_load_state_dict[of "criterion st" csd] by simp
      with None Some l l2 m assms show ?thesis by (simp add: restore_try_def)
    qed
  qed
qed

lemma main_restore_result:
  assumes "path \<noteq> []" and "ck_model (load_fsspec path) = Some sd"
    and "ck_step (load_fsspec path) = Some n" and "distinct (map fst (model st))"
  shows "\<exists>st'. main_restore (Some path) load_fsspec c st = Inr (st', n)
           \<and> model st' = set_init_dict (model st) sd
           \<and> param_group_lrs st' = map (\<lambda>group. lr c) (param_group_lrs st)
           \<and> (criterion st' = criterion st
               \<or> (\<exists>csd. ck_criterion (load_fsspec path) = Some csd
                     \<and> criterion st' = set_init_dict (criterion st) csd))"
proof -
  from restore_try_result[OF assms(2), of st] obtain st1 err where
    t: "restore_try (load_fsspec path) st = (st1, err)"
    and m: "model st1 = set_init_dict (model st) sd"
    and g: "param_group_lrs st1 = param_group_lrs st"
    and cr: "criterion st1 = criterion st
               \<or> (\<exists>csd. ck_criterion (load_fsspec path) = Some csd
                     \<and> criterion st1 = set_init_dict (criterion st) csd)"
    by blast
  have ex: "restore_except (load_fsspec path) st1 = Inr st1"
    by (rule restore_except_loaded[OF assms(2) m assms(4)])
  have "(case restore_try (load_fsspec path) st of
           (st1, None) \<Rightarrow> Inr st1
         | (st1, Some e) \<Rightarrow> restore_except (load_fsspec path) st1) = Inr st1"
    using t ex by (cases err) simp_all
  then have "main_restore (Some path) load_fsspec c st
      = Inr (st1\<lparr>param_group_lrs := map (\<lambda>group. lr c) (param_group_lrs st1)\<rparr>, n)"
    using assms(1,3) by (simp add: main_restore_def Let_def)
  with m g cr show ?thesis by auto
qed

lemma map_of_set_init_dict:
  "distinct (map fst own) \<Longrightarrow> (k, t) \<in> set own \<Longrightarrow>
     map_of (set_init_dict own sd) k
       = Some (case map_of sd k of Some t' \<Rightarrow> if fst t' = fst t then t' else t | None \<Rightarrow> t)"
proof (induction own)
  case Nil
  then show ?case by simp
next
  case (Cons p own)
  obtain k0 t0 where p: "p = (k0, t0)" by (cases p)
  show ?case
  proof (cases "k = k0")
    case True
    with Cons.prems p have "t = t0" by (auto simp: image_iff)
    with True p show ?thesis by (simp add: set_init_dict_def split: option.splits)
  next
    case False
    with Cons.prems p have "(k, t) \<in> set own" and "distinct (map fst own)" by auto
    from Cons.IH[OF this(2,1)] False p show ?thesis
      by (simp add: set_init_dict_def split: option.splits)
  qed
qed

lemma load_state_dict_set_init_dict:
  assumes d: "distinct (map fst own)"
  shows "load_state_dict own (set_init_dict own sd) = (set_init_dict own sd, None)"
proof -
  let ?md = "set_init_dict own sd"
  have look: "\<exists>u. map_of ?md k = Some u \<and> fst u = fst t \<and>
                (case map_of sd k of Some t' \<Rightarrow> if fst t' = fst t then (k, t') else (k, t)
                 | None \<Rightarrow> (k, t)) = (k, u)"
    if "(k, t) \<in> set own" for k t
    using map_of_set_init_dict[OF d that, of sd] by (auto split: option.splits)
  have "set_init_dict own ?md = ?md"
    unfolding set_init_dict_def[of own "set_init_dict own sd"]
    unfolding set_init_dict_def[of own sd]
  proof (rule map_cong[OF refl])
    fix p assume pin: "p \<in> set own"
    obtain k t where p: "p = (k, t)" by (cases p)
    with pin have kt: "(k, t) \<in> set own" by simp
    from look[OF kt] obtain u where
      "map_of ?md k = Some u" "fst u = fst t"
      "(case map_of sd k of Some t' \<Rightarrow> if fst t' = fst t then (k, t') else (k, t)
        | None \<Rightarrow> (k, t)) = (k, u)"
      by blast
    then show "(case p of (k, t) \<Rightarrow> case map_of (map (\<lambda>(k, t). case map_of sd k of
                      Some t' \<Rightarrow> if fst t' = fst t then (k, t') else (k, t)
                    | None \<Rightarrow> (k, t)) own) k of
                      Some t' \<Rightarrow> if fst t' = fst t then (k, t') else (k, t)
                    | None \<Rightarrow> (k, t))
             = (case p of (k, t) \<Rightarrow> case map_of sd k of
                      Some t' \<Rightarrow> if fst t' = fst t then (k, t') else (k, t)
                    | None \<Rightarrow> (k, t))"
      using p by (simp add: set_init_dict_def)
  qed
  then have "fst (load_state_dict own ?md) = ?md"
    by (simp only: fst_load_state_dict)
  moreover have "list_all (\<lambda>(k, t). case map_of ?md k of Some t' \<Rightarrow> fst t' = fst t
                                    | None \<Rightarrow> False) own"
    unfolding list_all_iff using look by fastforce
  then have "snd (load_state_dict own ?md) = None"
    by (simp add: load_state_dict_def keys_set_init_dict)
  ultimately show ?thesis by (simp add: prod_eq_iff)
qed

lemma restore_except_partial:
  assumes "ck_model ck = Some sd" and "distinct (map fst (model st))"
  shows "restore_except ck st = Inr (st\<lparr>model := set_init_dict (model st) sd\<rparr>)"
  using assms(1) load_state_dict_set_init_dict[OF assms(2), of sd]
  by (simp add: restore_except_def)

lemma main_restore_criterion:
  assumes "path \<noteq> []" and "ck_model (load_fsspec path) = Some sd"
    and "main_restore (Some path) load_fsspec c st = Inr (st', n)"
  shows "criterion st' =
           (if snd (load_state_dict (model st) sd) = None
            then (case ck_criterion (load_fsspec path) of
                    None \<Rightarrow> criterion st
                  | Some csd \<Rightarrow> set_init_dict (criterion st) csd)
            else criterion st)"
proof -
  have exc: "restore_except ck s = Inr s2 \<Longrightarrow> criterion s2 = criterion s"
    for ck and s s2 :: "'a session"
    by (auto simp: restore_except_def Let_def split: option.splits prod.splits)
  obtain m e where l: "load_state_dict (model st) sd = (m, e)"
    by (cases "load_state_dict (model st) sd")
  show ?thesis
  proof (cases e)
    case (Some a)
    with l assms(2) have t: "restore_try (load_fsspec path) st = (st\<lparr>model := m\<rparr>, Some a)"
      by (simp add: restore_try_def)
    from assms(1,3) t obtain st2 where
      "restore_except (load_fsspec path) (st\<lparr>model := m\<rparr>) = Inr st2"
      and "criterion st' = criterion st2"
      by (auto simp: main_restore_def Let_def split: sum.splits option.splits)
    with exc[of "load_fsspec path" "st\<lparr>model := m\<rparr>" st2] Some l show ?thesis by simp
  next
    case None
    show ?thesis
    proof (cases "ck_criterion (load_fsspec path)")
      case N: None
      with None l assms(2) have t: "restore_try (load_fsspec path) st = (st\<lparr>model := m\<rparr>, None)"
        by (simp add: restore_try_def)
      from assms(1,3) t have "criterion st' = criterion st"
        by (auto simp: main_restore_def Let_def split: sum.splits option.splits)
      with None N l show ?thesis by simp
    next
      case (Some csd)
      obtain cr e2 where l2: "load_state_dict (criterion st) csd = (cr, e2)"
        by (cases "load_state_dict (criterion st) csd")
      then have cr: "cr = set_init_dict (criterion st) csd"
        using fst_load_state_dict[of "criterion st" csd] by simp
      from None Some l l2 assms(2)
      have t: "restore_try (load_fsspec path) st = (st\<lparr>model := m, criterion := cr\<rparr>, e2)"
        by (simp add: restore_try_def)
      have "criterion st' = cr"
      proof (cases e2)
        case N2: None
        with assms(1,3) t show ?thesis
          by (auto simp: main_restore_def Let_def split: sum.splits option.splits)
      next
        case S2: (Some b)
        with assms(1,3) t obtain st2 where
          "restore_except (load_fsspec path) (st\<lparr>model := m, criterion := cr\<rparr>) = Inr st2"
          and "criterion st' = criterion st2"
          by (auto simp: main_restore_def Let_def split: sum.splits option.splits)
        with exc[of "load_fsspec path" "st\<lparr>model := m, criterion := cr\<rparr>" st2]
        show ?thesis by simp
      qed
      with None Some l cr show ?thesis by simp
    qed
  qed
qed

text \<open>
  Claim C6, as amended. Restoring from a checkpoint that has a \<^verbatim>\<open>"model"\<close> and a
  \<^verbatim>\<open>"step"\<close> entry raises nothing, whatever the keys and shapes of its parameters.
  The fallback of lines 212-216 is a partial load of the model: applied to any model it
  copies exactly the checkpoint's parameters of matching name and shape and leaves the
  others as they are, and it does not touch the criterion. After the restore block the
  model holds exactly the matching parameters of the checkpoint. The criterion has no
  fallback: when the strict load of the model fails, lines 208-209 are skipped and the
  criterion stays as initialised, also where the checkpoint holds matching criterion
  parameters (the counterexample after the witness); when the strict load of the model
  succeeds, the criterion holds the checkpoint's criterion parameters of matching name
  and shape.
\<close>

theorem restore_partial_load:
  assumes "path \<noteq> []" and "ck_model (load_fsspec path) = Some sd"
    and "ck_step (load_fsspec path) = Some n" and "distinct (map fst (model st))"
  shows "restore_except (load_fsspec path) st = Inr (st\<lparr>model := set_init_dict (model st) sd\<rparr>)
       \<and> (\<exists>st'. main_restore (Some path) load_fsspec c st = Inr (st', n)
             \<and> model st' = set_init_dict (model st) sd
             \<and> list_all2 (copied_or_kept sd) (model st) (model st')
             \<and> criterion st' =
                 (if snd (load_state_dict (model st) sd) = None
                  then (case ck_criterion (load_fsspec path) of
                          None \<Rightarrow> criterion st
                        | Some csd \<Rightarrow> set_init_dict (criterion st) csd)
                  else criterion st))"
proof -
  have h: "restore_except (load_fsspec path) st
             = Inr (st\<lparr>model := set_init_dict (model st) sd\<rparr>)"
    by (rule restore_except_partial[OF assms(2,4)])
  from main_restore_result[where path=path and load_fsspec=load_fsspec and c=c, OF assms]
  obtain st' where
    r: "main_restore (Some path) load_fsspec c st = Inr (st', n)"
    and m: "model st' = set_init_dict (model st) sd"
    by blast
  have "list_all2 (copied_or_kept sd) (model st) (model st')"
    by (simp only: m set_init_dict_copied_or_kept)
  moreover note main_restore_criterion[OF assms(1,2) r]
  ultimately show ?thesis using h r m by blast
qed

theorem restore_partial_load_witness:
  "restore_except example_checkpoint example_session
     = Inr (example_session\<lparr>model := [(''w'', ([2, 3], 0)), (''b'', ([3], 8))]\<rparr>)
   \<and> (\<exists>st'. main_restore (Some ''best_model.pth'') (\<lambda>path. example_checkpoint)
               example_config example_session = Inr (st', 1234)
         \<and> model st' = [(''w'', ([2, 3], 0)), (''b'', ([3], 8))]
         \<and> criterion st' = [(''cw'', ([1], 0)), (''cb'', ([1], 0))])"
proof -
  have "restore_except example_checkpoint example_session
          = Inr (example_session\<lparr>model := set_init_dict (model example_session)
                   [(''w'', ([4, 3], 7)), (''b'', ([3], 8)), (''extra'', ([1], 9))]\<rparr>)
       \<and> (\<exists>st'. main_restore (Some ''best_model.pth'') (\<lambda>path. example_checkpoint)
               example_config example_session = Inr (st', 1234)
         \<and> model st' = set_init_dict (model example_session)
             [(''w'', ([4, 3], 7)), (''b'', ([3], 8)), (''extra'', ([1], 9))]
         \<and> criterion st' =
             (if snd (load_state_dict (model example_session)
                        [(''w'', ([4, 3], 7)), (''b'', ([3], 8)), (''extra'', ([1], 9))]) = None
              then (case ck_criterion example_checkpoint of
                      None \<Rightarrow> criterion example_session
                    | Some csd \<Rightarrow> set_init_dict (criterion example_session) csd)
              else criterion example_session))"
    using restore_partial_load[where path="''best_model.pth''"
        and load_fsspec="\<lambda>path. example_checkpoint"
        and c=example_config and st=example_session and n=1234
        and sd="[(''w'', ([4, 3], 7)), (''b'', ([3], 8)), (''extra'', ([1], 9))]"]
    by (auto simp: example_checkpoint_def example_session_def example_model_def)
  moreover have "set_init_dict (model example_session)
             [(''w'', ([4, 3], 7)), (''b'', ([3], 8)), (''extra'', ([1], 9))]
           = [(''w'', ([2, 3], 0)), (''b'', ([3], 8))]"
    by (simp add: set_init_dict_def example_session_def example_model_def)
  moreover have "snd (load_state_dict (model example_session)
                        [(''w'', ([4, 3], 7)), (''b'', ([3], 8)), (''extra'', ([1], 9))])
                 = Some RuntimeError"
    by (simp add: load_state_dict_def example_session_def example_model_def)
  moreover have "criterion example_session = [(''cw'', ([1], 0)), (''cb'', ([1], 0))]"
    by (simp add: example_session_def)
  ultimately show ?thesis by auto
qed

theorem restore_criterion_skipped_counterexample:
  "ck_criterion example_checkpoint = Some [(''cw'', ([1], 5))]
   \<and> criterion example_session = [(''cw'', ([1], 0)), (''cb'', ([1], 0))]
   \<and> main_restore (Some ''best_model.pth'') (\<lambda>path. example_checkpoint)
        example_config example_session
      = Inr (\<lparr>model = [(''w'', ([2, 3], 0)), (''b'', ([3], 8))],
               criterion = [(''cw'', ([1], 0)), (''cb'', ([1], 0))],
               param_group_lrs = [1 / 10000, 1 / 10000]\<rparr>, 1234)"
  by (simp add: main_restore_def restore_try_def restore_except_def load_state_dict_def
        set_init_dict_def example_checkpoint_def example_session_def example_model_def
        example_config_def Let_def)

text \<open>
  Claim C7. After a restore the learning rate of every parameter group of the optimizer
  is the configured \<^verbatim>\<open>lr\<close>, the step stored in the checkpoint is the \<open>global_step\<close>
  the training loop starts from; without a restore path the loop starts from 0.
\<close>

theorem restore_lr_and_step:
  "(path \<noteq> [] \<and> main_restore (Some path) load_fsspec c st = Inr (st', step) \<longrightarrow>
      param_group_lrs st' = replicate (length (param_group_lrs st)) (lr c)
      \<and> ck_step (load_fsspec path) = Some step
      \<and> main (Some path) load_fsspec c st data_loader = train c data_loader step)
   \<and> main_restore None load_fsspec c st = Inr (st, 0)
   \<and> main_restore (Some []) load_fsspec c st = Inr (st, 0)
   \<and> main None load_fsspec c st data_loader = train c data_loader 0
   \<and> main (Some []) load_fsspec c st data_loader = train c data_loader 0"
proof -
  have keep_try: "param_group_lrs (fst (restore_try ck s)) = param_group_lrs s" for ck and s :: "'a session"
    by (auto simp: restore_try_def split: option.splits prod.splits)
  have keep_exc: "restore_except ck s = Inr s2 \<Longrightarrow> param_group_lrs s2 = param_group_lrs s"
    for ck and s s2 :: "'a session"
    by (auto simp: restore_except_def Let_def split: option.splits prod.splits)
  have restored: "param_group_lrs st' = replicate (length (param_group_lrs st)) (lr c)
      \<and> ck_step (load_fsspec path) = Some step
      \<and> main (Some path) load_fsspec c st data_loader = train c data_loader step"
    if ne: "path \<noteq> []" and r: "main_restore (Some path) load_fsspec c st = Inr (st', step)"
  proof -
    obtain st1 err where t: "restore_try (load_fsspec path) st = (st1, err)"
      by (cases "restore_try (load_fsspec path) st")
    from keep_try[of "load_fsspec path" st] t have g1: "param_group_lrs st1 = param_group_lrs st"
      by simp
    from r ne t obtain st2 where
      st2: "(case err of None \<Rightarrow> Inr st1 | Some e \<Rightarrow> restore_except (load_fsspec path) st1) = Inr st2"
      and st': "st' = st2\<lparr>param_group_lrs := map (\<lambda>group. lr c) (param_group_lrs st2)\<rparr>"
      and stp: "ck_step (load_fsspec path) = Some step"
      by (auto simp: main_restore_def Let_def split: sum.splits option.splits)
    from st2 g1 keep_exc have "param_group_lrs st2 = param_group_lrs st"
      by (cases err) auto
    with st' have "param_group_lrs st' = replicate (length (param_group_lrs st)) (lr c)"
      by (simp add: map_replicate_const)
    moreover have "main (Some path) load_fsspec c st data_loader = train c data_loader step"
      by (simp add: main_def r)
    ultimately show ?thesis using stp by simp
  qed
  have "main_restore None load_fsspec c st = Inr (st, 0)"
    and "main_restore (Some []) load_fsspec c st = Inr (st, 0)"
    by (simp_all add: main_restore_def)
  moreover from this have "main None load_fsspec c st data_loader = train c data_loader 0"
    and "main (Some []) load_fsspec c st data_loader = train c data_loader 0"
    by (simp_all add: main_def)
  ultimately show ?thesis using restored by blast
qed

theorem restore_lr_and_step_witness:
  "\<exists>st'. main_restore (Some ''best_model.pth'') (\<lambda>path. example_checkpoint) example_config example_session
            = Inr (st', 1234)
         \<and> param_group_lrs st' = [1 / 10000, 1 / 10000]
         \<and> main (Some ''best_model.pth'') (\<lambda>path. example_checkpoint) example_config example_session
              [example_batch 2 1] = train example_config [example_batch 2 1] 1234"
proof -
  have "\<exists>st'. main_restore (Some ''best_model.pth'') (\<lambda>path. example_checkpoint) example_config example_session
            = Inr (st', 1234)"
    using main_restore_result[where path="''best_model.pth''" and load_fsspec="\<lambda>path. example_checkpoint"
        and c=example_config and st=example_session and n=1234
        and sd="[(''w'', ([4, 3], 7)), (''b'', ([3], 8)), (''extra'', ([1], 9))]"]
    by (auto simp: example_checkpoint_def example_session_def example_model_def)
  then obtain st' where r: "main_restore (Some ''best_model.pth'') (\<lambda>path. example_checkpoint)
      example_config example_session = Inr (st', 1234)"
    by blast
  from restore_lr_and_step[of "''best_model.pth''" "\<lambda>path. example_checkpoint" example_config example_session
      st' 1234 "[example_batch 2 1]"] r
  have "param_group_lrs st' = replicate (length (param_group_lrs example_session)) (lr example_config)"
    and "main (Some ''best_model.pth'') (\<lambda>path. example_checkpoint) example_config example_session
              [example_batch 2 1] = train example_config [example_batch 2 1] 1234"
    by simp_all
  then have "param_group_lrs st' = [1 / 10000, 1 / 10000]"
    and "main (Some ''best_model.pth'') (\<lambda>path. example_checkpoint) example_config example_session
              [example_batch 2 1] = train example_config [example_batch 2 1] 1234"
    by (simp_all add: example_session_def example_config_def numeral_2_eq_2)
  with r show ?thesis by blast
qed

end
